theory Spec2Isabelle
  imports Complex_Main "HOL-Library.Multiset"
begin

section \<open>The poll: editors and votes\<close>

text \<open>
  The enumeration \<^verbatim>\<open>Editor\<close> of \<^verbatim>\<open>main.py\<close> has two members whose values
  are given by \<^verbatim>\<open>auto()\<close>: 1 for vim and 2 for emacs.
\<close>

datatype Editor = vim | emacs

fun Editor_value :: "Editor \<Rightarrow> int" where
  "Editor_value vim = 1"
| "Editor_value emacs = 2"

fun Editor_name :: "Editor \<Rightarrow> string" where
  "Editor_name vim = ''vim''"
| "Editor_name emacs = ''emacs''"

text \<open>\<^verbatim>\<open>Editor.all()\<close>: the members in definition order.\<close>

definition Editor_all :: "Editor list" where
  "Editor_all = [vim, emacs]"

text \<open>
  \<^verbatim>\<open>Editor(n)\<close>: the member with value \<open>n\<close>; Python raises \<^verbatim>\<open>ValueError\<close> when
  there is none, which is \<open>None\<close> here.
\<close>

definition Editor_of :: "int \<Rightarrow> Editor option" where
  "Editor_of n = (if n = 1 then Some vim else if n = 2 then Some emacs else None)"

text \<open>
  A row of the table \<^verbatim>\<open>Vote\<close>. The column \<^verbatim>\<open>voted\<close> is a naive UTC
  \<^verbatim>\<open>datetime\<close>; it is kept as the number of seconds it denotes, a rational, so
  that only its order matters. The conversion \<^verbatim>\<open>.timestamp()\<close> to a float is a
  parameter \<open>timestamp\<close> of the functions that call it.
\<close>

record Vote =
  vote_id :: int
  vote_editor :: Editor
  vote_voted :: rat

section \<open>The aggregate view: \<^verbatim>\<open>index\<close>\<close>

text \<open>
  The query \<^verbatim>\<open>query(Vote.editor, count(Vote.editor)).group_by(Vote.editor)\<close>
  yields one pair per editor that has at least one row. The groups are listed here in
  enumeration order; SQL leaves the order open, and the theorem about \<open>index\<close> below
  holds for every order.
\<close>

definition count_editor :: "Editor \<Rightarrow> Vote list \<Rightarrow> int" where
  "count_editor e vs = int (length (filter (\<lambda>v. vote_editor v = e) vs))"

definition editor_counts :: "Vote list \<Rightarrow> (Editor \<times> int) list" where
  "editor_counts vs =
     map (\<lambda>e. (e, count_editor e vs))
       (filter (\<lambda>e. 0 < count_editor e vs) Editor_all)"

text \<open>
  \<^verbatim>\<open>sorted(xs, key=itemgetter(1), reverse=True)\<close>: a stable sort by descending
  count. CPython reverses the list, sorts it stably in ascending order and reverses the
  result, so elements with equal keys keep their order.
\<close>

definition sorted_reverse :: "(Editor \<times> int) list \<Rightarrow> (Editor \<times> int) list" where
  "sorted_reverse xs = rev (sort_key snd (rev xs))"

text \<open>
  The body of \<^verbatim>\<open>index\<close> after the query: the value \<^verbatim>\<open>final_result\<close>
  handed to the template as \<^verbatim>\<open>winner\<close>. The last equation is the branch for
  two or more groups, where \<^verbatim>\<open>sorted_counts[0]\<close> and \<^verbatim>\<open>sorted_counts[1]\<close>
  exist.
\<close>

fun final_result :: "(Editor \<times> int) list \<Rightarrow> Editor option \<times> int" where
  "final_result [] = (None, 0)"
| "final_result [(e, n)] = (Some e, n)"
| "final_result gs =
     (case take 2 (sorted_reverse gs) of
        (e0, n0) # (e1, n1) # _ \<Rightarrow> if n1 < n0 then (Some e0, n0) else (None, n0)
      | _ \<Rightarrow> (None, 0))"

definition index :: "Vote list \<Rightarrow> Editor option \<times> int" where
  "index vs = final_result (editor_counts vs)"

section \<open>Statistics: \<^verbatim>\<open>stats_json\<close>\<close>

text \<open>
  Python's \<^verbatim>\<open>max(xs, key=f)\<close> and \<^verbatim>\<open>min(xs, key=f)\<close> on a non-empty list: a
  scan that keeps the first element whose key is extreme.
\<close>

fun max_scan :: "Vote \<Rightarrow> Vote list \<Rightarrow> Vote" where
  "max_scan b [] = b"
| "max_scan b (v # vs) = max_scan (if vote_voted b < vote_voted v then v else b) vs"

fun min_scan :: "Vote \<Rightarrow> Vote list \<Rightarrow> Vote" where
  "min_scan b [] = b"
| "min_scan b (v # vs) = min_scan (if vote_voted v < vote_voted b then v else b) vs"

text \<open>
  \<^verbatim>\<open>max(votes, key=...).voted if votes else None\<close> and its \<^verbatim>\<open>min\<close> twin.
\<close>

definition latest_vote :: "Vote list \<Rightarrow> rat option" where
  "latest_vote votes =
     (case votes of [] \<Rightarrow> None | v # vs \<Rightarrow> Some (vote_voted (max_scan v vs)))"

definition first_vote :: "Vote list \<Rightarrow> rat option" where
  "first_vote votes =
     (case votes of [] \<Rightarrow> None | v # vs \<Rightarrow> Some (vote_voted (min_scan v vs)))"

text \<open>
  The dictionary \<^verbatim>\<open>vote_counts\<close> is an association list in insertion order.
  \<^verbatim>\<open>d[k] += 1\<close> raises \<^verbatim>\<open>KeyError\<close> when \<open>k\<close> is not a key.
\<close>

datatype py_error = KeyError | ValueError | OverflowError

fun dict_incr :: "int \<Rightarrow> (int \<times> int) list \<Rightarrow> py_error + (int \<times> int) list" where
  "dict_incr k [] = Inl KeyError"
| "dict_incr k ((k', c) # d) =
     (if k' = k then Inr ((k', c + 1) # d)
      else (case dict_incr k d of Inl err \<Rightarrow> Inl err | Inr d' \<Rightarrow> Inr ((k', c) # d')))"

text \<open>The loop \<^verbatim>\<open>for vote in votes: vote_counts[vote.editor.value] += 1\<close>.\<close>

fun count_loop :: "(int \<times> int) list \<Rightarrow> Vote list \<Rightarrow> py_error + (int \<times> int) list" where
  "count_loop d [] = Inr d"
| "count_loop d (v # vs) =
     (case dict_incr (Editor_value (vote_editor v)) d of
        Inl err \<Rightarrow> Inl err
      | Inr d' \<Rightarrow> count_loop d' vs)"

record 'ts stats =
  total :: int
  votes :: "(int \<times> int) list"
  latest :: "'ts option"
  first :: "'ts option"

definition stats_json :: "(rat \<Rightarrow> 'ts) \<Rightarrow> Vote list \<Rightarrow> py_error + 'ts stats" where
  "stats_json timestamp vs =
     (let total_votes = int (length vs);
          vote_counts = map (\<lambda>editor. (Editor_value editor, 0)) Editor_all
      in case count_loop vote_counts vs of
           Inl err \<Rightarrow> Inl err
         | Inr vote_counts' \<Rightarrow>
             Inr \<lparr>total = total_votes,
                  votes = vote_counts',
                  latest = map_option timestamp (latest_vote vs),
                  first = map_option timestamp (first_vote vs)\<rparr>)"

section \<open>Python built-ins used by the handlers\<close>

text \<open>
  A Python string is a list of code points; the type \<open>char\<close> covers the code points
  below 256. \<^verbatim>\<open>int(s)\<close> on a string removes surrounding whitespace (the ASCII
  whitespace and, above ASCII, the Unicode spaces: below 256 these are NEL and the
  no-break space), reads an optional sign, then decimal digits in which single
  underscores may separate digits. CPython since 3.11 (and the security releases of
  3.9 and 3.10) refuses more than \<^verbatim>\<open>sys.int_info.default_max_str_digits\<close> = 4300
  digits. Any failure raises \<^verbatim>\<open>ValueError\<close>, which is \<open>None\<close> here.
\<close>

definition int_space :: "char \<Rightarrow> bool" where
  "int_space c = (of_char c \<in> set [9, 10, 11, 12, 13, 32, 133, 160 :: nat])"

definition is_digit :: "char \<Rightarrow> bool" where
  "is_digit c = (48 \<le> (of_char c :: nat) \<and> (of_char c :: nat) \<le> 57)"

definition digit_val :: "char \<Rightarrow> int" where
  "digit_val c = int (of_char c) - 48"

definition py_strip :: "string \<Rightarrow> string" where
  "py_strip s = rev (dropWhile int_space (rev (dropWhile int_space s)))"

definition max_str_digits :: nat where
  "max_str_digits = 4300"

fun digits_acc :: "int \<Rightarrow> string \<Rightarrow> int option" where
  "digits_acc acc [] = Some acc"
| "digits_acc acc (c # cs) =
     (if is_digit c then digits_acc (10 * acc + digit_val c) cs
      else if c = CHR ''_'' \<and> cs \<noteq> [] \<and> is_digit (hd cs) then digits_acc acc cs
      else None)"

definition parse_digits :: "string \<Rightarrow> int option" where
  "parse_digits s =
     (case s of
        [] \<Rightarrow> None
      | c # _ \<Rightarrow>
          if is_digit c \<and> length (filter is_digit s) \<le> max_str_digits
          then digits_acc 0 s else None)"

definition py_int :: "string \<Rightarrow> int option" where
  "py_int s =
     (case py_strip s of
        [] \<Rightarrow> None
      | c # r \<Rightarrow>
          if c = CHR ''-'' then map_option uminus (parse_digits r)
          else if c = CHR ''+'' then parse_digits r
          else parse_digits (c # r))"

text \<open>\<^verbatim>\<open>str(n)\<close> for an integer, as an f-string formats it.\<close>

fun str_nat :: "nat \<Rightarrow> string" where
  "str_nat n =
     (if n < 10 then [char_of (48 + n)]
      else str_nat (n div 10) @ [char_of (48 + n mod 10)])"

declare str_nat.simps [simp del]

definition py_str :: "int \<Rightarrow> string" where
  "py_str i = (if i < 0 then CHR ''-'' # str_nat (nat (- i)) else str_nat (nat i))"

text \<open>
  \<^verbatim>\<open>str.lower()\<close> on code points below 256: the ASCII capitals and the Latin-1
  capitals (192 to 222 without the multiplication sign 215) move up by 32.
\<close>

definition lower_char :: "char \<Rightarrow> char" where
  "lower_char c =
     (let n = (of_char c :: nat)
      in if (65 \<le> n \<and> n \<le> 90) \<or> (192 \<le> n \<and> n \<le> 222 \<and> n \<noteq> 215)
         then char_of (n + 32) else c)"

definition lower :: "string \<Rightarrow> string" where
  "lower s = map lower_char s"

text \<open>
  \<^verbatim>\<open>x or d\<close> for an optional string \<open>x\<close>: \<^verbatim>\<open>None\<close> and the empty string are
  false.
\<close>

definition str_or :: "string option \<Rightarrow> string \<Rightarrow> string" where
  "str_or x d = (case x of None \<Rightarrow> d | Some s \<Rightarrow> if s = [] then d else s)"

section \<open>The error page: \<^verbatim>\<open>error_handler\<close>\<close>

text \<open>
  What the handler reads of a \<^verbatim>\<open>werkzeug\<close> \<^verbatim>\<open>HTTPException\<close>: its
  \<^verbatim>\<open>code\<close> (absent on the base class), its \<^verbatim>\<open>name\<close> and its
  \<^verbatim>\<open>description\<close>.
\<close>

record HTTPException =
  code :: "int option"
  name :: string
  description :: "string option"

text \<open>
  The context given to \<^verbatim>\<open>render_template("http.j2", ...)\<close>, and the two kinds
  of body the handler builds: a \<^verbatim>\<open>text/plain\<close> response, or the rendered template
  (the template itself is not part of the sources).
\<close>

record http_j2 =
  page_code :: "int option"
  page_summary :: string
  page_description :: string

datatype body = Text_plain string | Render_http_j2 http_j2

text \<open>
  The handler's result: the seconds slept before answering (\<^verbatim>\<open>time.sleep\<close>), the
  body and the status.
\<close>

record error_response =
  slept :: "rat option"
  response_body :: body
  status :: int

text \<open>\<^verbatim>\<open>f"{e.code}"\<close>: an absent code is formatted as \<^verbatim>\<open>None\<close>.\<close>

definition format_code :: "int option \<Rightarrow> string" where
  "format_code c = (case c of None \<Rightarrow> ''None'' | Some n \<Rightarrow> py_str n)"

text \<open>\<^verbatim>\<open>e.code or 200\<close>: an absent code and 0 are false.\<close>

definition code_or_200 :: "int option \<Rightarrow> int" where
  "code_or_200 c = (case c of None \<Rightarrow> 200 | Some n \<Rightarrow> if n = 0 then 200 else n)"

text \<open>
  \<open>r\<close> is the draw of \<^verbatim>\<open>secrets.SystemRandom().random()\<close>, a number in
  \<open>[0, 1)\<close>.
\<close>

definition error_handler :: "rat \<Rightarrow> HTTPException \<Rightarrow> error_response" where
  "error_handler r e =
     (if code e = Some 429
      then \<lparr>slept = Some (r * 15),
            response_body =
              Text_plain (''too many requests : '' @ str_or (description e) ''<limit>''),
            status = 429\<rparr>
      else \<lparr>slept = None,
            response_body =
              Render_http_j2
                \<lparr>page_code = code e,
                 page_summary = lower (name e),
                 page_description =
                   lower (str_or (description e) (''http error code '' @ format_code (code e)))\<rparr>,
            status = code_or_200 (code e)\<rparr>)"

section \<open>The filtering API: \<^verbatim>\<open>votes_json\<close>\<close>

text \<open>
  The three query parameters the handler reads, each absent or a string.
  \<^verbatim>\<open>args.get(key, default=None, type=int)\<close> converts a present value with
  \<^verbatim>\<open>int\<close> and falls back to the default when the conversion raises.
\<close>

record query_args =
  arg_from :: "string option"
  arg_to :: "string option"
  arg_editor :: "string option"

definition args_get_int :: "string option \<Rightarrow> int option" where
  "args_get_int a = (case a of None \<Rightarrow> None | Some s \<Rightarrow> py_int s)"

text \<open>
  The criteria appended to \<^verbatim>\<open>filters\<close>, and when a row meets one.
\<close>

datatype criterion = Id_ge int | Id_le int | Editor_eq Editor

fun meets :: "Vote \<Rightarrow> criterion \<Rightarrow> bool" where
  "meets v (Id_ge n) = (n \<le> vote_id v)"
| "meets v (Id_le n) = (vote_id v \<le> n)"
| "meets v (Editor_eq e) = (vote_editor v = e)"

text \<open>
  The integer of an id criterion is bound as a parameter of the SQLite statement. The
  driver takes the signed 64-bit integers and raises \<^verbatim>\<open>OverflowError\<close> on any
  other (\<^verbatim>\<open>Python int too large to convert to SQLite INTEGER\<close>); the editor of
  an editor criterion is bound by its name.
\<close>

definition sqlite_int :: "int \<Rightarrow> bool" where
  "sqlite_int n = (- (2 ^ 63) \<le> n \<and> n < 2 ^ 63)"

fun bindable :: "criterion \<Rightarrow> bool" where
  "bindable (Id_ge n) = sqlite_int n"
| "bindable (Id_le n) = sqlite_int n"
| "bindable (Editor_eq e) = True"

text \<open>
  \<^verbatim>\<open>Vote.query.filter(*filters).all()\<close>: the rows that meet every criterion, or
  the exception raised when a parameter cannot be bound. The handler calls it outside
  any \<^verbatim>\<open>try\<close>, so the exception ends the request with status 500.
\<close>

definition query_filter :: "criterion list \<Rightarrow> Vote list \<Rightarrow> py_error + Vote list" where
  "query_filter filters rows =
     (if list_all bindable filters
      then Inr (filter (\<lambda>v. list_all (meets v) filters) rows)
      else Inl OverflowError)"

text \<open>
  The list \<^verbatim>\<open>filters\<close> as the handler builds it. An editor number that names no
  member makes \<^verbatim>\<open>Editor(editor)\<close> raise inside the \<^verbatim>\<open>try\<close>, and nothing is
  appended.
\<close>

definition build_filters :: "query_args \<Rightarrow> criterion list" where
  "build_filters args =
     (case args_get_int (arg_from args) of None \<Rightarrow> [] | Some from_id \<Rightarrow> [Id_ge from_id])
     @ (case args_get_int (arg_to args) of None \<Rightarrow> [] | Some to_id \<Rightarrow> [Id_le to_id])
     @ (case args_get_int (arg_editor args) of
          None \<Rightarrow> []
        | Some editor \<Rightarrow>
            (case Editor_of editor of None \<Rightarrow> [] | Some e \<Rightarrow> [Editor_eq e]))"

text \<open>
  The inner dictionary of one vote, and \<^verbatim>\<open>d[k] = v\<close> on a dictionary kept as an
  association list in insertion order: an existing key keeps its place and takes the
  new value.
\<close>

record 'ts vote_entry =
  entry_editor :: int
  entry_voted :: 'ts

fun dict_set :: "'k \<Rightarrow> 'v \<Rightarrow> ('k \<times> 'v) list \<Rightarrow> ('k \<times> 'v) list" where
  "dict_set k v [] = [(k, v)]"
| "dict_set k v ((k', v') # d) =
     (if k' = k then (k', v) # d else (k', v') # dict_set k v d)"

definition vote_entry_of :: "(rat \<Rightarrow> 'ts) \<Rightarrow> Vote \<Rightarrow> 'ts vote_entry" where
  "vote_entry_of timestamp vote =
     \<lparr>entry_editor = Editor_value (vote_editor vote),
      entry_voted = timestamp (vote_voted vote)\<rparr>"

definition votes_json ::
    "(rat \<Rightarrow> 'ts) \<Rightarrow> query_args \<Rightarrow> Vote list
      \<Rightarrow> py_error + (int \<times> 'ts vote_entry) list" where
  "votes_json timestamp args rows =
     (case query_filter (build_filters args) rows of
        Inl err \<Rightarrow> Inl err
      | Inr selected \<Rightarrow>
          Inr (fold (\<lambda>vote votes.
                 dict_set (vote_id vote) (vote_entry_of timestamp vote) votes)
               selected []))"

section \<open>The rate limiter\<close>

text \<open>
  Modelled from the spec: the rate limiter. The packages \<^verbatim>\<open>flask_limiter\<close> and
  \<^verbatim>\<open>limits\<close> that implement \<^verbatim>\<open>@limiter.limit("1 per day")\<close> are not in the
  sources, which only configure them (keyed by remote address, in memory,
  moving window). The spec: each client, identified by network address, may submit at
  most one vote per rolling 24-hour window; the limiter tracks vote attempts and
  rejects repeats within the window. The storage maps a client to the times of the
  attempts it let through, newest first. An attempt at time \<open>now\<close> is let through,
  and recorded, unless the newest recorded attempt is no older than the window.
\<close>

type_synonym limiter_storage = "string \<Rightarrow> rat list"

definition one_day :: rat where
  "one_day = 86400"

definition limiter_hit :: "rat \<Rightarrow> string \<Rightarrow> limiter_storage \<Rightarrow> bool \<times> limiter_storage" where
  "limiter_hit now key st =
     (case st key of
        [] \<Rightarrow> (True, st(key := [now]))
      | t # ts \<Rightarrow>
          if now - one_day \<le> t then (False, st)
          else (True, st(key := now # t # ts)))"

section \<open>The vote store and the submission handler: \<^verbatim>\<open>vote\<close>\<close>

text \<open>
  The store as the handler sees it through \<^verbatim>\<open>db.session\<close>: the committed rows
  of the table, the rows the open transaction has written but not committed, and the
  objects added to the session but not yet written.
\<close>

record database =
  rows :: "Vote list"
  written :: "Vote list"
  pending :: "Editor list"

text \<open>
  What the storage layer does with a commit: it succeeds, or the \<^verbatim>\<open>INSERT\<close> of the
  flush fails, or the rows are written and the \<^verbatim>\<open>COMMIT\<close> itself fails. The
  outcome is an input of the model.
\<close>

datatype storage_outcome = Commit_ok | Flush_fails | Commit_fails

definition session_add :: "Editor \<Rightarrow> database \<Rightarrow> database" where
  "session_add e d = d\<lparr>pending := pending d @ [e]\<rparr>"

text \<open>
  The integer primary key SQLite gives a new row: 1 in an empty table, otherwise one
  more than the largest key.
\<close>

definition next_id :: "Vote list \<Rightarrow> int" where
  "next_id seen = (if seen = [] then 1 else Max (set (map vote_id seen)) + 1)"

text \<open>
  Writing the pending objects in order; \<^verbatim>\<open>voted\<close> takes its default
  \<^verbatim>\<open>datetime.utcnow\<close>, the time \<open>now\<close> of the insert. The result is the rows
  written, \<open>seen\<close> being the rows already in the table.
\<close>

fun insert_rows :: "rat \<Rightarrow> Vote list \<Rightarrow> Editor list \<Rightarrow> Vote list" where
  "insert_rows now seen [] = []"
| "insert_rows now seen (e # es) =
     (let v = \<lparr>vote_id = next_id seen, vote_editor = e, vote_voted = now\<rparr>
      in v # insert_rows now (seen @ [v]) es)"

definition session_flush :: "rat \<Rightarrow> database \<Rightarrow> database" where
  "session_flush now d =
     d\<lparr>written := written d @ insert_rows now (rows d @ written d) (pending d),
       pending := []\<rparr>"

text \<open>
  \<^verbatim>\<open>db.session.commit()\<close>: \<open>Inr\<close> the store after a successful commit, \<open>Inl\<close>
  the store as the raised exception leaves it.
\<close>

definition session_commit :: "rat \<Rightarrow> storage_outcome \<Rightarrow> database \<Rightarrow> database + database" where
  "session_commit now outcome d =
     (case outcome of
        Flush_fails \<Rightarrow> Inl d
      | Commit_fails \<Rightarrow> Inl (session_flush now d)
      | Commit_ok \<Rightarrow>
          (let d' = session_flush now d
           in Inr (d'\<lparr>rows := rows d' @ written d', written := []\<rparr>)))"

definition session_rollback :: "database \<Rightarrow> database" where
  "session_rollback d = d\<lparr>written := [], pending := []\<rparr>"

text \<open>
  What a handler hands back: a redirect, with the messages it flashed, or
  \<^verbatim>\<open>flask.abort(code)\<close>, an HTTP error that \<open>error_handler\<close> renders.
\<close>

datatype response = Redirect string "string list" | Abort int

text \<open>
  The body of \<^verbatim>\<open>vote\<close>, under its decorators. \<open>voe\<close> is
  \<^verbatim>\<open>request.form.get("voe")\<close>. After the commit \<^verbatim>\<open>vote.id\<close> is the key of the
  row written for the object just added, the last row of the table. Inside the second
  \<^verbatim>\<open>try\<close> only the commit is taken to raise: reading \<^verbatim>\<open>vote.id\<close> back and
  \<^verbatim>\<open>flask.flash\<close> are taken to succeed.
\<close>

definition vote_body ::
    "rat \<Rightarrow> storage_outcome \<Rightarrow> string option \<Rightarrow> database \<Rightarrow> response \<times> database" where
  "vote_body now outcome voe d =
     (case voe of
        None \<Rightarrow> (Abort 400, d)
      | Some s \<Rightarrow>
          if s = [] then (Abort 400, d)
          else
            (case py_int s of
               None \<Rightarrow> (Abort 400, d)
             | Some n \<Rightarrow>
                 (case Editor_of n of
                    None \<Rightarrow> (Abort 400, d)
                  | Some editor \<Rightarrow>
                      (case session_commit now outcome (session_add editor d) of
                         Inr d' \<Rightarrow>
                           (Redirect ''/''
                              [''Your vote for `'' @ Editor_name editor @ ''` with ID `''
                               @ py_str (vote_id (last (rows d'))) @ ''` has been recorded.''],
                            d')
                       | Inl d' \<Rightarrow> (Abort 500, session_rollback d')))))"

text \<open>
  The server state a submission meets, and a submission: who sends it, when, the form
  field, and what the storage layer will do with a commit.
\<close>

record server =
  limiter :: limiter_storage
  db :: database

record submission =
  remote_addr :: string
  sent_at :: rat
  form_voe :: "string option"
  storage :: storage_outcome

text \<open>
  \<^verbatim>\<open>vote\<close> as routed: \<^verbatim>\<open>@limiter.limit("1 per day")\<close> runs first and answers
  429 on its own when the limit is used up; otherwise the attempt is counted and the
  body runs.
\<close>

definition vote :: "submission \<Rightarrow> server \<Rightarrow> response \<times> server" where
  "vote sub sv =
     (case limiter_hit (sent_at sub) (remote_addr sub) (limiter sv) of
        (False, st) \<Rightarrow> (Abort 429, sv\<lparr>limiter := st\<rparr>)
      | (True, st) \<Rightarrow>
          (case vote_body (sent_at sub) (storage sub) (form_voe sub) (db sv) of
             (resp, d) \<Rightarrow> (resp, \<lparr>limiter = st, db = d\<rparr>)))"

text \<open>
  The state at process start: the limiter's \<^verbatim>\<open>memory://\<close> storage holds nothing,
  and \<^verbatim>\<open>db.create_all()\<close> on a new database file gives an empty table.
\<close>

definition memory_storage :: limiter_storage where
  "memory_storage = (\<lambda>key. [])"

definition started :: server where
  "started = \<lparr>limiter = memory_storage, db = \<lparr>rows = [], written = [], pending = []\<rparr>\<rparr>"

text \<open>Submissions handled one after the other.\<close>

fun run :: "server \<Rightarrow> submission list \<Rightarrow> response list \<times> server" where
  "run sv [] = ([], sv)"
| "run sv (sub # subs) =
     (case vote sub sv of
        (resp, sv') \<Rightarrow> (case run sv' subs of (resps, sv'') \<Rightarrow> (resp # resps, sv'')))"

section \<open>Properties of the aggregates\<close>

lemma count_editor_nonneg: "0 \<le> count_editor e vs"
  by (simp add: count_editor_def)

lemma count_editor_Cons:
  "count_editor e (v # vs) = (if vote_editor v = e then 1 else 0) + count_editor e vs"
  by (simp add: count_editor_def)

lemma count_editor_total:
  "count_editor vim vs + count_editor emacs vs = int (length vs)"
proof (induction vs)
  case Nil
  show ?case by (simp add: count_editor_def)
next
  case (Cons v vs)
  then show ?case by (cases "vote_editor v") (simp_all add: count_editor_Cons)
qed

lemma editor_counts_cases:
  "editor_counts vs =
     (if 0 < count_editor vim vs
      then (if 0 < count_editor emacs vs
            then [(vim, count_editor vim vs), (emacs, count_editor emacs vs)]
            else [(vim, count_editor vim vs)])
      else (if 0 < count_editor emacs vs
            then [(emacs, count_editor emacs vs)]
            else []))"
  by (simp add: editor_counts_def Editor_all_def)

lemma mset_pair_cases:
  assumes "mset gs = mset [a, b]"
  shows "gs = [a, b] \<or> gs = [b, a]"
proof -
  from assms have len: "length gs = 2"
    by (metis length_Cons list.size(3) size_mset numeral_2_eq_2)
  then obtain x y where gs: "gs = [x, y]"
    by (cases gs; cases "tl gs"; cases "tl (tl gs)") auto
  with assms have "{#x, y#} = {#a, b#}" by (simp add: add_mset_commute)
  then show ?thesis unfolding gs
    by (auto simp: add_eq_conv_ex)
qed

lemma final_result_two:
  "final_result [(e0, n0), (e1, n1)] =
     (if n1 < n0 then (Some e0, n0) else if n0 < n1 then (Some e1, n1) else (None, n0))"
  by (simp add: sorted_reverse_def)

lemma final_result_table:
  assumes "mset gs = mset (editor_counts vs)"
  shows "final_result gs =
     (let v = count_editor vim vs; e = count_editor emacs vs in
      if v = 0 \<and> e = 0 then (None, 0)
      else if e = 0 then (Some vim, v)
      else if v = 0 then (Some emacs, e)
      else if e < v then (Some vim, v)
      else if v < e then (Some emacs, e)
      else (None, v))"
proof -
  let ?v = "count_editor vim vs" and ?e = "count_editor emacs vs"
  have nn: "0 \<le> ?v" "0 \<le> ?e" by (rule count_editor_nonneg)+
  consider (none) "?v = 0" "?e = 0" | (v) "0 < ?v" "?e = 0" | (e) "?v = 0" "0 < ?e"
    | (both) "0 < ?v" "0 < ?e"
    using nn by linarith
  then show ?thesis
  proof cases
    case none
    with assms have "gs = []" by (simp add: editor_counts_cases)
    with none show ?thesis by simp
  next
    case v
    with assms have "gs = [(vim, ?v)]" by (simp add: editor_counts_cases)
    with v show ?thesis by simp
  next
    case e
    with assms have "gs = [(emacs, ?e)]" by (simp add: editor_counts_cases)
    with e show ?thesis by simp
  next
    case both
    with assms have "mset gs = mset [(vim, ?v), (emacs, ?e)]"
      by (simp add: editor_counts_cases)
    then have "gs = [(vim, ?v), (emacs, ?e)] \<or> gs = [(emacs, ?e), (vim, ?v)]"
      by (rule mset_pair_cases)
    with both show ?thesis
      by (auto simp: final_result_two Let_def simp del: final_result.simps)
  qed
qed

text \<open>
  C1. Let \<open>v\<close> and \<open>e\<close> be the numbers of stored votes for vim and for emacs; the
  groups of the query are the editors with at least one vote, each with its count.
  Whatever the order in which the database lists the groups \<open>gs\<close>, the winner computed
  from them is the one \<open>index\<close> computes, and it is: no editor and 0 when there is no
  group; the editor and its count when only one editor has votes; the editor with the
  larger count and that count when both have votes and the counts differ; and no editor
  together with the common count when the two counts are equal.
\<close>

theorem index_winner:
  assumes "mset gs = mset (editor_counts vs)"
  shows "final_result gs = index vs
     \<and> index vs =
       (let v = count_editor vim vs; e = count_editor emacs vs in
        if v = 0 \<and> e = 0 then (None, 0)
        else if e = 0 then (Some vim, v)
        else if v = 0 then (Some emacs, e)
        else if e < v then (Some vim, v)
        else if v < e then (Some emacs, e)
        else (None, v))"
  using final_result_table [OF assms] final_result_table [of "editor_counts vs" vs]
  by (simp add: index_def)

text \<open>
  The theorem at three votes for vim and one for emacs, with the groups listed emacs
  first: vim wins with 3.
\<close>

theorem index_winner_witness:
  "mset [(emacs, 1), (vim, 3)] =
     mset (editor_counts
       [\<lparr>vote_id = 1, vote_editor = vim, vote_voted = 10\<rparr>,
        \<lparr>vote_id = 2, vote_editor = emacs, vote_voted = 20\<rparr>,
        \<lparr>vote_id = 3, vote_editor = vim, vote_voted = 30\<rparr>,
        \<lparr>vote_id = 4, vote_editor = vim, vote_voted = 40\<rparr>])
   \<and> final_result [(emacs, 1), (vim, 3)] = (Some vim, 3)
   \<and> index
       [\<lparr>vote_id = 1, vote_editor = vim, vote_voted = 10\<rparr>,
        \<lparr>vote_id = 2, vote_editor = emacs, vote_voted = 20\<rparr>,
        \<lparr>vote_id = 3, vote_editor = vim, vote_voted = 30\<rparr>,
        \<lparr>vote_id = 4, vote_editor = vim, vote_voted = 40\<rparr>] = (Some vim, 3)"
proof -
  let ?vs = "[\<lparr>vote_id = 1, vote_editor = vim, vote_voted = 10\<rparr>,
        \<lparr>vote_id = 2, vote_editor = emacs, vote_voted = 20\<rparr>,
        \<lparr>vote_id = 3, vote_editor = vim, vote_voted = 30\<rparr>,
        \<lparr>vote_id = 4, vote_editor = vim, vote_voted = 40\<rparr>]"
  have h: "mset [(emacs, 1), (vim, 3)] = mset (editor_counts ?vs)"
    by (simp add: editor_counts_def count_editor_def Editor_all_def)
  have c: "count_editor vim ?vs = 3" "count_editor emacs ?vs = 1"
    by (simp_all add: count_editor_def)
  from index_winner [OF h] have "final_result [(emacs, 1), (vim, 3)] = index ?vs"
    and "index ?vs = (Some vim, 3)"
    by (simp_all add: c)
  with h show ?thesis by simp
qed

lemma count_loop_two:
  "count_loop [(1, a), (2, b)] vs =
     Inr [(1, a + count_editor vim vs), (2, b + count_editor emacs vs)]"
proof (induction vs arbitrary: a b)
  case Nil
  show ?case by (simp add: count_editor_def)
next
  case (Cons v vs)
  show ?case
    by (cases "vote_editor v") (simp_all add: Cons.IH count_editor_Cons)
qed

lemma max_scan_fold:
  "vote_voted (max_scan b vs) = fold max (map vote_voted vs) (vote_voted b)"
  by (induction vs arbitrary: b) (simp_all add: max_def not_less)

lemma min_scan_fold:
  "vote_voted (min_scan b vs) = fold min (map vote_voted vs) (vote_voted b)"
  by (induction vs arbitrary: b) (simp_all add: min_def not_less)

lemma latest_vote_Max:
  "latest_vote vs = (if vs = [] then None else Some (Max (vote_voted ` set vs)))"
proof (cases vs)
  case Nil
  then show ?thesis by (simp add: latest_vote_def)
next
  case (Cons v ws)
  have "Max (set (vote_voted v # map vote_voted ws)) =
        fold max (map vote_voted ws) (vote_voted v)"
    by (rule Max.set_eq_fold)
  with Cons show ?thesis by (simp add: latest_vote_def max_scan_fold)
qed

lemma first_vote_Min:
  "first_vote vs = (if vs = [] then None else Some (Min (vote_voted ` set vs)))"
proof (cases vs)
  case Nil
  then show ?thesis by (simp add: first_vote_def)
next
  case (Cons v ws)
  have "Min (set (vote_voted v # map vote_voted ws)) =
        fold min (map vote_voted ws) (vote_voted v)"
    by (rule Min.set_eq_fold)
  with Cons show ?thesis by (simp add: first_vote_def min_scan_fold)
qed

lemma stats_json_eq:
  "stats_json timestamp vs =
     Inr \<lparr>total = int (length vs),
          votes = [(1, count_editor vim vs), (2, count_editor emacs vs)],
          latest = map_option timestamp (latest_vote vs),
          first = map_option timestamp (first_vote vs)\<rparr>"
  by (simp add: stats_json_def Editor_all_def count_loop_two)

text \<open>
  C2. For every list \<open>vs\<close> of stored votes \<open>stats_json\<close> returns (it never raises
  \<^verbatim>\<open>KeyError\<close>) a record whose \<open>total\<close> is the number of votes, whose count
  dictionary has exactly the ordinals of the enumeration as keys, each mapped to the
  number of votes for that editor (possibly zero), and whose \<open>first\<close> and \<open>latest\<close>
  are the timestamps of the least and the greatest \<open>voted\<close> value, or absent when
  there is no vote.
\<close>

theorem stats_json_spec:
  "\<exists>s. stats_json timestamp vs = Inr s
     \<and> total s = int (length vs)
     \<and> map fst (votes s) = map Editor_value Editor_all
     \<and> (\<forall>e. map_of (votes s) (Editor_value e) = Some (count_editor e vs))
     \<and> first s = (if vs = [] then None else Some (timestamp (Min (vote_voted ` set vs))))
     \<and> latest s = (if vs = [] then None else Some (timestamp (Max (vote_voted ` set vs))))"
proof -
  have "\<forall>e. map_of [(1, count_editor vim vs), (2, count_editor emacs vs)] (Editor_value e)
          = Some (count_editor e vs)"
  proof
    fix e
    show "map_of [(1, count_editor vim vs), (2, count_editor emacs vs)] (Editor_value e)
          = Some (count_editor e vs)"
      by (cases e) simp_all
  qed
  then show ?thesis
    by (simp add: stats_json_eq Editor_all_def latest_vote_Max first_vote_Min)
qed

text \<open>
  C7. For every list of stored votes the values of the count dictionary returned by
  \<open>stats_json\<close> add up to the returned \<open>total\<close>.
\<close>

theorem stats_json_sum:
  "\<exists>s. stats_json timestamp vs = Inr s \<and> sum_list (map snd (votes s)) = total s"
  by (simp add: stats_json_eq count_editor_total)

section \<open>Properties of the filtering API\<close>

lemma dict_set_fresh:
  "k \<notin> fst ` set d \<Longrightarrow> dict_set k v d = d @ [(k, v)]"
  by (induction d) auto

lemma fold_dict_set:
  "distinct (map fst acc @ map kf xs) \<Longrightarrow>
   fold (\<lambda>x d. dict_set (kf x) (vf x) d) xs acc = acc @ map (\<lambda>x. (kf x, vf x)) xs"
proof (induction xs arbitrary: acc)
  case Nil
  show ?case by simp
next
  case (Cons x xs)
  from Cons.prems have fresh: "kf x \<notin> fst ` set acc" by auto
  from Cons.prems have "distinct (map fst (acc @ [(kf x, vf x)]) @ map kf xs)" by auto
  from Cons.IH [OF this] fresh show ?case by (simp add: dict_set_fresh)
qed

lemma list_all_build_filters:
  "list_all (meets v) (build_filters args) =
     ((case args_get_int (arg_from args) of None \<Rightarrow> True | Some n \<Rightarrow> n \<le> vote_id v)
      \<and> (case args_get_int (arg_to args) of None \<Rightarrow> True | Some n \<Rightarrow> vote_id v \<le> n)
      \<and> (case args_get_int (arg_editor args) of
            None \<Rightarrow> True
          | Some n \<Rightarrow> (case Editor_of n of None \<Rightarrow> True | Some e \<Rightarrow> vote_editor v = e)))"
  by (simp add: build_filters_def split: option.splits)

lemma list_all_bindable:
  "list_all bindable (build_filters args) =
     ((case args_get_int (arg_from args) of None \<Rightarrow> True | Some n \<Rightarrow> sqlite_int n)
      \<and> (case args_get_int (arg_to args) of None \<Rightarrow> True | Some n \<Rightarrow> sqlite_int n))"
  by (simp add: build_filters_def split: option.splits)

lemma fold_selected:
  assumes "distinct (map vote_id vs)"
  shows "fold (\<lambda>vote votes. dict_set (vote_id vote) (vote_entry_of timestamp vote) votes)
       (filter P vs) [] =
     map (\<lambda>v. (vote_id v, vote_entry_of timestamp v)) (filter P vs)"
proof -
  have "distinct (map vote_id (filter P vs))"
    using assms by (simp add: distinct_map_filter)
  then have "distinct (map fst ([] :: (int \<times> 'a vote_entry) list)
      @ map vote_id (filter P vs))"
    by simp
  from fold_dict_set [OF this, of "vote_entry_of timestamp"] show ?thesis by simp
qed

text \<open>
  What \<open>votes_json\<close> does in full. A \<^verbatim>\<open>from\<close> or \<^verbatim>\<open>to\<close> that parses to
  an integer outside the signed 64-bit range makes the query raise. Otherwise, on a
  table whose ids are distinct (\<^verbatim>\<open>id\<close> is the primary key), the answer lists
  exactly the votes that meet every filter in force, each as its id with its editor
  ordinal and timestamp.
\<close>

lemma votes_json_eq:
  assumes "distinct (map vote_id vs)"
  shows "votes_json timestamp args vs =
     (if (case args_get_int (arg_from args) of None \<Rightarrow> True | Some n \<Rightarrow> sqlite_int n)
         \<and> (case args_get_int (arg_to args) of None \<Rightarrow> True | Some n \<Rightarrow> sqlite_int n)
      then Inr (map (\<lambda>v. (vote_id v, vote_entry_of timestamp v))
        (filter (\<lambda>v.
           (case args_get_int (arg_from args) of None \<Rightarrow> True | Some n \<Rightarrow> n \<le> vote_id v)
           \<and> (case args_get_int (arg_to args) of None \<Rightarrow> True | Some n \<Rightarrow> vote_id v \<le> n)
           \<and> (case args_get_int (arg_editor args) of
                 None \<Rightarrow> True
               | Some n \<Rightarrow>
                   (case Editor_of n of None \<Rightarrow> True | Some e \<Rightarrow> vote_editor v = e))) vs))
      else Inl OverflowError)"
  by (simp add: votes_json_def query_filter_def list_all_bindable fold_selected [OF assms]
      list_all_build_filters)

lemma py_int_1: "py_int ''1'' = Some 1"
  by (simp add: py_int_def py_strip_def int_space_def parse_digits_def is_digit_def
      digit_val_def max_str_digits_def)

lemma py_int_5: "py_int ''5'' = Some 5"
  by (simp add: py_int_def py_strip_def int_space_def parse_digits_def is_digit_def
      digit_val_def max_str_digits_def)

lemma py_int_10: "py_int ''10'' = Some 10"
  by (simp add: py_int_def py_strip_def int_space_def parse_digits_def is_digit_def
      digit_val_def max_str_digits_def)

lemma py_int_99: "py_int ''99'' = Some 99"
  by (simp add: py_int_def py_strip_def int_space_def parse_digits_def is_digit_def
      digit_val_def max_str_digits_def)

lemma py_int_2_63: "py_int ''9223372036854775808'' = Some 9223372036854775808"
  by (simp add: py_int_def py_strip_def int_space_def parse_digits_def is_digit_def
      digit_val_def max_str_digits_def)

text \<open>
  Within the range the two queries of the spec behave as it says: with
  \<^verbatim>\<open>editor=1\<close> every vote returned is a vote for vim, and with
  \<^verbatim>\<open>from=5&to=10\<close> every id returned lies between 5 and 10.
\<close>

lemma votes_json_editor_1:
  assumes "distinct (map vote_id vs)" and "arg_editor args = Some ''1''"
    and "votes_json timestamp args vs = Inr res"
  shows "\<forall>k \<in> fst ` set res. \<exists>v \<in> set vs. vote_id v = k \<and> vote_editor v = vim"
    and "\<forall>x \<in> snd ` set res. entry_editor x = 1"
  using assms(2,3) unfolding votes_json_eq [OF assms(1)]
  by (auto simp: args_get_int_def py_int_1 Editor_of_def vote_entry_of_def split: if_splits)

lemma votes_json_from_5_to_10:
  assumes "distinct (map vote_id vs)"
    and "arg_from args = Some ''5''" and "arg_to args = Some ''10''"
  shows "\<exists>res. votes_json timestamp args vs = Inr res
     \<and> (\<forall>k \<in> fst ` set res. 5 \<le> k \<and> k \<le> 10)"
  using assms(2,3) unfolding votes_json_eq [OF assms(1)]
  by (auto simp: args_get_int_def py_int_5 py_int_10 sqlite_int_def)

text \<open>
  C6. The claim (for every combination of \<^verbatim>\<open>from\<close>, \<^verbatim>\<open>to\<close> and
  \<^verbatim>\<open>editor\<close> the handler returns exactly the votes satisfying the filters) asks
  that the request \<^verbatim>\<open>/votes.json?to=9223372036854775808\<close> return every vote whose
  id is at most \<open>2\<^sup>6\<^sup>3\<close>, that is the one vote of this table. The code does not: the
  bound parses, is appended as a filter, and binding it raises
  \<^verbatim>\<open>OverflowError\<close>, so the request ends with status 500 and no vote is
  returned.
\<close>

theorem votes_json_overflow:
  "py_int ''9223372036854775808'' = Some 9223372036854775808
   \<and> vote_id \<lparr>vote_id = 1, vote_editor = vim, vote_voted = 10\<rparr> \<le> 9223372036854775808
   \<and> votes_json (\<lambda>t. t)
       \<lparr>arg_from = None, arg_to = Some ''9223372036854775808'', arg_editor = None\<rparr>
       [\<lparr>vote_id = 1, vote_editor = vim, vote_voted = 10\<rparr>]
     = Inl OverflowError"
  by (simp add: votes_json_def query_filter_def build_filters_def args_get_int_def
      py_int_2_63 sqlite_int_def)

text \<open>
  C8. When the \<^verbatim>\<open>editor\<close> parameter parses as an integer that names no member
  of the enumeration, it is ignored: the outcome is the one of the same request without
  the parameter. And the query runs over the remaining filters: when \<^verbatim>\<open>from\<close>
  and \<^verbatim>\<open>to\<close>, where they parse, can be bound (the ids of the table being
  distinct), the request is answered with exactly the votes whose id is at least
  \<^verbatim>\<open>from\<close> and at most \<^verbatim>\<open>to\<close>, of either editor.
\<close>

theorem votes_json_bad_editor:
  assumes "args_get_int (arg_editor args) = Some n" and "Editor_of n = None"
  shows "votes_json timestamp args vs = votes_json timestamp (args\<lparr>arg_editor := None\<rparr>) vs
     \<and> (distinct (map vote_id vs)
          \<and> (case args_get_int (arg_from args) of None \<Rightarrow> True | Some a \<Rightarrow> sqlite_int a)
          \<and> (case args_get_int (arg_to args) of None \<Rightarrow> True | Some b \<Rightarrow> sqlite_int b)
        \<longrightarrow>
        votes_json timestamp args vs =
          Inr (map (\<lambda>v. (vote_id v, vote_entry_of timestamp v))
            (filter (\<lambda>v.
               (case args_get_int (arg_from args) of None \<Rightarrow> True | Some a \<Rightarrow> a \<le> vote_id v)
               \<and> (case args_get_int (arg_to args) of None \<Rightarrow> True | Some b \<Rightarrow> vote_id v \<le> b))
             vs)))"
proof -
  have same: "votes_json timestamp args vs
      = votes_json timestamp (args\<lparr>arg_editor := None\<rparr>) vs"
    using assms by (simp add: votes_json_def build_filters_def args_get_int_def)
  have abs: "votes_json timestamp args vs =
          Inr (map (\<lambda>v. (vote_id v, vote_entry_of timestamp v))
            (filter (\<lambda>v.
               (case args_get_int (arg_from args) of None \<Rightarrow> True | Some a \<Rightarrow> a \<le> vote_id v)
               \<and> (case args_get_int (arg_to args) of None \<Rightarrow> True | Some b \<Rightarrow> vote_id v \<le> b))
             vs))"
    if d: "distinct (map vote_id vs)"
      and a: "case args_get_int (arg_from args) of None \<Rightarrow> True | Some a \<Rightarrow> sqlite_int a"
      and b: "case args_get_int (arg_to args) of None \<Rightarrow> True | Some b \<Rightarrow> sqlite_int b"
    using a b assms by (simp add: votes_json_eq [OF d])
  from same abs show ?thesis by blast
qed

text \<open>
  The theorem at \<^verbatim>\<open>from=5&to=10&editor=99\<close> on a table of four votes: the votes
  5 and 10 are returned, one for each editor.
\<close>

theorem votes_json_bad_editor_witness:
  "args_get_int (Some ''99'') = Some 99 \<and> Editor_of 99 = None
   \<and> votes_json (\<lambda>t. t)
        \<lparr>arg_from = Some ''5'', arg_to = Some ''10'', arg_editor = Some ''99''\<rparr>
        [\<lparr>vote_id = 3, vote_editor = vim, vote_voted = 10\<rparr>,
         \<lparr>vote_id = 5, vote_editor = emacs, vote_voted = 20\<rparr>,
         \<lparr>vote_id = 10, vote_editor = vim, vote_voted = 30\<rparr>,
         \<lparr>vote_id = 11, vote_editor = vim, vote_voted = 40\<rparr>]
     = Inr [(5, \<lparr>entry_editor = 2, entry_voted = 20\<rparr>),
            (10, \<lparr>entry_editor = 1, entry_voted = 30\<rparr>)]"
proof -
  let ?args = "\<lparr>arg_from = Some ''5'', arg_to = Some ''10'', arg_editor = Some ''99''\<rparr>"
  let ?vs = "[\<lparr>vote_id = 3, vote_editor = vim, vote_voted = 10\<rparr>,
         \<lparr>vote_id = 5, vote_editor = emacs, vote_voted = 20\<rparr>,
         \<lparr>vote_id = 10, vote_editor = vim, vote_voted = 30\<rparr>,
         \<lparr>vote_id = 11, vote_editor = vim, vote_voted = 40\<rparr>]"
  have h1: "args_get_int (arg_editor ?args) = Some 99"
    by (simp add: args_get_int_def py_int_99)
  have h2: "Editor_of 99 = None" by (simp add: Editor_of_def)
  have pre: "distinct (map vote_id ?vs)
      \<and> (case args_get_int (arg_from ?args) of None \<Rightarrow> True | Some a \<Rightarrow> sqlite_int a)
      \<and> (case args_get_int (arg_to ?args) of None \<Rightarrow> True | Some b \<Rightarrow> sqlite_int b)"
    by (simp add: args_get_int_def py_int_5 py_int_10 sqlite_int_def)
  from votes_json_bad_editor [OF h1 h2, of "\<lambda>t. t" ?vs, THEN conjunct2, rule_format, OF pre]
    h1 h2
  show ?thesis
    by (simp add: args_get_int_def py_int_5 py_int_10 vote_entry_of_def)
qed

section \<open>Properties of the error page\<close>

text \<open>
  C9, as the code has it. An HTTP error whose code is not 429 is rendered with the
  template of the error page, which receives the code, the lower-cased name as summary
  and the lower-cased description (or \<^verbatim>\<open>http error code N\<close> when there is none);
  nothing is slept. For code 429 the handler sleeps the random draw times 15, a delay
  from 0 up to 15 seconds, and then answers in plain text \<^verbatim>\<open>too many requests : \<close>
  followed by the description, with status 429: not with the error page.
\<close>

theorem error_handler_spec:
  "(code e \<noteq> Some 429 \<longrightarrow>
      error_handler r e =
        \<lparr>slept = None,
         response_body =
           Render_http_j2
             \<lparr>page_code = code e,
              page_summary = lower (name e),
              page_description =
                lower (str_or (description e) (''http error code '' @ format_code (code e)))\<rparr>,
         status = code_or_200 (code e)\<rparr>)
   \<and> (code e = Some 429 \<longrightarrow> 0 \<le> r \<longrightarrow> r < 1 \<longrightarrow>
        (\<exists>d. slept (error_handler r e) = Some d \<and> 0 \<le> d \<and> d < 15)
        \<and> response_body (error_handler r e) =
            Text_plain (''too many requests : '' @ str_or (description e) ''<limit>'')
        \<and> status (error_handler r e) = 429)"
  by (simp add: error_handler_def)

text \<open>The theorem at a 404 without description and at a 429, the draw being one half.\<close>

theorem error_handler_spec_witness:
  "error_handler (1 / 2) \<lparr>code = Some 404, name = ''Not Found'', description = None\<rparr> =
     \<lparr>slept = None,
      response_body =
        Render_http_j2
          \<lparr>page_code = Some 404, page_summary = ''not found'',
           page_description = ''http error code 404''\<rparr>,
      status = 404\<rparr>
   \<and> slept (error_handler (1 / 2)
        \<lparr>code = Some 429, name = ''Too Many Requests'', description = Some ''1 per 1 day''\<rparr>)
      = Some (15 / 2)
   \<and> status (error_handler (1 / 2)
        \<lparr>code = Some 429, name = ''Too Many Requests'', description = Some ''1 per 1 day''\<rparr>)
      = 429"
  using error_handler_spec [of "\<lparr>code = Some 404, name = ''Not Found'', description = None\<rparr>" "1 / 2"]
    error_handler_spec [of "\<lparr>code = Some 429, name = ''Too Many Requests'',
      description = Some ''1 per 1 day''\<rparr>" "1 / 2"]
  by (simp add: error_handler_def lower_def lower_char_def char_of_def bit_0 str_or_def format_code_def
      py_str_def str_nat.simps code_or_200_def)

text \<open>
  C9 as the claim states it fails at a 429: the body is the plain text, not the
  rendered error page.
\<close>

theorem error_handler_429_counterexample:
  "response_body (error_handler (1 / 2)
     \<lparr>code = Some 429, name = ''Too Many Requests'', description = Some ''1 per 1 day''\<rparr>)
   = Text_plain ''too many requests : 1 per 1 day''
   \<and> response_body (error_handler (1 / 2)
     \<lparr>code = Some 429, name = ''Too Many Requests'', description = Some ''1 per 1 day''\<rparr>)
   \<noteq> Render_http_j2
       \<lparr>page_code = Some 429, page_summary = ''too many requests'',
        page_description = ''1 per 1 day''\<rparr>"
  by (simp add: error_handler_def str_or_def)

section \<open>Properties of the submission handler\<close>

lemma py_int_2: "py_int ''2'' = Some 2"
  by (simp add: py_int_def py_strip_def int_space_def parse_digits_def is_digit_def
      digit_val_def max_str_digits_def)

lemma py_int_plus_1: "py_int '' +1 '' = Some 1"
  by (simp add: py_int_def py_strip_def int_space_def parse_digits_def is_digit_def
      digit_val_def max_str_digits_def)

lemma py_str_1: "py_str 1 = ''1''"
  by (simp add: py_str_def str_nat.simps char_of_def bit_0)

lemma py_str_2: "py_str 2 = ''2''"
  by (simp add: py_str_def str_nat.simps char_of_def bit_0)

lemma Editor_of_Some: "Editor_of n = Some e \<Longrightarrow> n = Editor_value e \<and> (n = 1 \<or> n = 2)"
  by (auto simp: Editor_of_def split: if_splits)

lemma vote_body_bad:
  assumes "voe = None \<or> voe = Some []
     \<or> (\<exists>s. voe = Some s \<and> (py_int s = None \<or> (\<exists>n. py_int s = Some n \<and> Editor_of n = None)))"
  shows "vote_body now outcome voe d = (Abort 400, d)"
  using assms by (auto simp: vote_body_def)

lemma vote_limited:
  assumes "\<not> fst (limiter_hit (sent_at sub) (remote_addr sub) (limiter sv))"
  shows "vote sub sv = (Abort 429, sv)"
proof -
  from assms have "limiter_hit (sent_at sub) (remote_addr sub) (limiter sv) = (False, limiter sv)"
    by (auto simp: limiter_hit_def split: list.splits if_splits)
  then show ?thesis by (simp add: vote_def)
qed

lemma vote_admitted:
  assumes "fst (limiter_hit (sent_at sub) (remote_addr sub) (limiter sv))"
  shows "vote sub sv =
     (fst (vote_body (sent_at sub) (storage sub) (form_voe sub) (db sv)),
      \<lparr>limiter = snd (limiter_hit (sent_at sub) (remote_addr sub) (limiter sv)),
       db = snd (vote_body (sent_at sub) (storage sub) (form_voe sub) (db sv))\<rparr>)"
  using assms
  by (cases "limiter_hit (sent_at sub) (remote_addr sub) (limiter sv)")
     (simp add: vote_def split: prod.splits)

lemma started_admits: "fst (limiter_hit now key (limiter started))"
  by (simp add: started_def memory_storage_def limiter_hit_def)

lemma vote_first:
  "vote \<lparr>remote_addr = ''203.0.113.7'', sent_at = 0, form_voe = Some ''1'', storage = Commit_ok\<rparr>
     started =
   (Redirect ''/'' [''Your vote for `vim` with ID `1` has been recorded.''],
    \<lparr>limiter = memory_storage(''203.0.113.7'' := [0]),
     db = \<lparr>rows = [\<lparr>vote_id = 1, vote_editor = vim, vote_voted = 0\<rparr>],
           written = [], pending = []\<rparr>\<rparr>)"
  by (simp add: vote_def started_def limiter_hit_def memory_storage_def vote_body_def py_int_1
      Editor_of_def session_commit_def session_add_def session_flush_def next_id_def py_str_1)

text \<open>
  C3, as the code has it. A submission whose \<^verbatim>\<open>voe\<close> is missing, empty, not
  readable by \<^verbatim>\<open>int\<close>, or a number that names no member of the enumeration is
  rejected and leaves the vote store as it was. The limiter runs before the handler's
  own checks: the answer is 400 (bad request) when the limiter lets the attempt through,
  and 429 (too many requests) when the client's daily limit is used up.
\<close>

theorem vote_bad_request:
  assumes "form_voe sub = None \<or> form_voe sub = Some []
     \<or> (\<exists>s. form_voe sub = Some s
           \<and> (py_int s = None \<or> (\<exists>n. py_int s = Some n \<and> Editor_of n = None)))"
  shows "fst (vote sub sv) =
       (if fst (limiter_hit (sent_at sub) (remote_addr sub) (limiter sv))
        then Abort 400 else Abort 429)
     \<and> db (snd (vote sub sv)) = db sv"
proof (cases "fst (limiter_hit (sent_at sub) (remote_addr sub) (limiter sv))")
  case True
  from vote_body_bad [OF assms] vote_admitted [OF True] True show ?thesis by simp
next
  case False
  from vote_limited [OF False] False show ?thesis by simp
qed

text \<open>
  The theorem at \<^verbatim>\<open>voe=99\<close>, sent to the server as started: 400, and the store
  unchanged.
\<close>

theorem vote_bad_request_witness:
  "py_int ''99'' = Some 99 \<and> Editor_of 99 = None
   \<and> fst (vote \<lparr>remote_addr = ''203.0.113.7'', sent_at = 0, form_voe = Some ''99'',
                storage = Commit_ok\<rparr> started) = Abort 400
   \<and> db (snd (vote \<lparr>remote_addr = ''203.0.113.7'', sent_at = 0, form_voe = Some ''99'',
                storage = Commit_ok\<rparr> started)) = db started"
proof -
  let ?sub = "\<lparr>remote_addr = ''203.0.113.7'', sent_at = 0, form_voe = Some ''99'',
                storage = Commit_ok\<rparr>"
  have e: "Editor_of 99 = None" by (simp add: Editor_of_def)
  have h: "form_voe ?sub = None \<or> form_voe ?sub = Some []
     \<or> (\<exists>s. form_voe ?sub = Some s
           \<and> (py_int s = None \<or> (\<exists>n. py_int s = Some n \<and> Editor_of n = None)))"
    using py_int_99 e by simp
  from vote_bad_request [OF h, of started] started_admits [of 0 "''203.0.113.7''"] py_int_99 e
  show ?thesis by simp
qed

text \<open>
  C3 as the claim states it fails for a client that has voted a minute before: its
  submission of \<^verbatim>\<open>voe=99\<close> is answered with 429, not with 400.
\<close>

theorem vote_bad_request_counterexample:
  "fst (vote \<lparr>remote_addr = ''203.0.113.7'', sent_at = 60, form_voe = Some ''99'',
              storage = Commit_ok\<rparr>
        (snd (vote \<lparr>remote_addr = ''203.0.113.7'', sent_at = 0, form_voe = Some ''1'',
                    storage = Commit_ok\<rparr> started))) = Abort 429
   \<and> fst (vote \<lparr>remote_addr = ''203.0.113.7'', sent_at = 60, form_voe = Some ''99'',
              storage = Commit_ok\<rparr>
        (snd (vote \<lparr>remote_addr = ''203.0.113.7'', sent_at = 0, form_voe = Some ''1'',
                    storage = Commit_ok\<rparr> started))) \<noteq> Abort 400"
proof -
  have first: "snd (vote \<lparr>remote_addr = ''203.0.113.7'', sent_at = 0, form_voe = Some ''1'',
                    storage = Commit_ok\<rparr> started) =
      \<lparr>limiter = memory_storage(''203.0.113.7'' := [0]),
       db = \<lparr>rows = [\<lparr>vote_id = 1, vote_editor = vim, vote_voted = 0\<rparr>],
             written = [], pending = []\<rparr>\<rparr>"
    by (simp add: vote_first)
  show ?thesis unfolding first
    by (simp add: vote_def limiter_hit_def one_day_def)
qed

lemma session_failure:
  assumes "outcome = Flush_fails \<or> outcome = Commit_fails"
  shows "\<exists>d'. session_commit now outcome (session_add e d) = Inl d'
     \<and> session_rollback d' = d\<lparr>written := [], pending := []\<rparr>"
  using assms
  by (auto simp: session_commit_def session_add_def session_flush_def session_rollback_def)

lemma vote_body_failure:
  assumes "s \<noteq> []" "py_int s = Some n" "Editor_of n = Some e"
    and "outcome = Flush_fails \<or> outcome = Commit_fails"
  shows "vote_body now outcome (Some s) d = (Abort 500, d\<lparr>written := [], pending := []\<rparr>)"
proof -
  from session_failure [OF assms(4), of now e d] obtain d'
    where "session_commit now outcome (session_add e d) = Inl d'"
      and "session_rollback d' = d\<lparr>written := [], pending := []\<rparr>" by blast
  with assms(1-3) show ?thesis by (simp add: vote_body_def)
qed

text \<open>
  C4. When a submission has passed the limiter and carries a valid selection, and the
  store fails (the write of the flush or the commit itself), the answer is 500
  (internal error) and nothing of the attempt is left: the committed rows are those of
  before, and the transaction's written rows and the session's pending objects are
  gone, whatever the failing commit had left there.
\<close>

theorem vote_storage_failure:
  assumes "fst (limiter_hit (sent_at sub) (remote_addr sub) (limiter sv))"
    and "form_voe sub = Some s" and "s \<noteq> []"
    and "py_int s = Some n" and "Editor_of n = Some e"
    and "storage sub = Flush_fails \<or> storage sub = Commit_fails"
  shows "fst (vote sub sv) = Abort 500
     \<and> db (snd (vote sub sv)) = (db sv)\<lparr>written := [], pending := []\<rparr>"
  using vote_admitted [OF assms(1)] vote_body_failure [OF assms(3-6)] assms(2)
  by simp

text \<open>
  The theorem at a vote for emacs whose commit fails, on the server as started: 500, and
  the store is the one of before.
\<close>

theorem vote_storage_failure_witness:
  "fst (vote \<lparr>remote_addr = ''203.0.113.7'', sent_at = 0, form_voe = Some ''2'',
              storage = Commit_fails\<rparr> started) = Abort 500
   \<and> db (snd (vote \<lparr>remote_addr = ''203.0.113.7'', sent_at = 0, form_voe = Some ''2'',
              storage = Commit_fails\<rparr> started)) = db started"
proof -
  let ?sub = "\<lparr>remote_addr = ''203.0.113.7'', sent_at = 0, form_voe = Some ''2'',
              storage = Commit_fails\<rparr>"
  have h1: "fst (limiter_hit (sent_at ?sub) (remote_addr ?sub) (limiter started))"
    by (rule started_admits)
  have h2: "form_voe ?sub = Some ''2''" by simp
  have h3: "''2'' \<noteq> []" by simp
  have h5: "Editor_of 2 = Some emacs" by (simp add: Editor_of_def)
  have h6: "storage ?sub = Flush_fails \<or> storage ?sub = Commit_fails" by simp
  from vote_storage_failure [OF h1 h2 h3 py_int_2 h5 h6] show ?thesis
    by (simp add: started_def)
qed

lemma session_success:
  assumes "written d = []" "pending d = []"
  shows "session_commit now Commit_ok (session_add e d) =
     Inr (d\<lparr>rows := rows d @ [\<lparr>vote_id = next_id (rows d), vote_editor = e, vote_voted = now\<rparr>]\<rparr>)"
  using assms
  by (simp add: session_commit_def session_add_def session_flush_def Let_def)

lemma vote_body_success:
  assumes "s \<noteq> []" "py_int s = Some n" "Editor_of n = Some e"
    and "written d = []" "pending d = []"
  shows "vote_body now Commit_ok (Some s) d =
     (Redirect ''/''
        [''Your vote for `'' @ Editor_name e @ ''` with ID `''
         @ py_str (next_id (rows d)) @ ''` has been recorded.''],
      d\<lparr>rows := rows d @ [\<lparr>vote_id = next_id (rows d), vote_editor = e, vote_voted = now\<rparr>]\<rparr>)"
  using assms(1-3) by (simp add: vote_body_def session_success [OF assms(4,5)])

lemma vote_body_same:
  assumes "s \<noteq> []" "py_int s = Some n" "Editor_of n = Some e"
  shows "vote_body now outcome (Some s) d = vote_body now outcome (Some (py_str n)) d"
proof -
  from Editor_of_Some [OF assms(3)] have "n = 1 \<or> n = 2" by blast
  then have "py_str n \<noteq> [] \<and> py_int (py_str n) = Some n"
    by (auto simp: py_str_1 py_str_2 py_int_1 py_int_2)
  with assms show ?thesis by (simp add: vote_body_def)
qed

lemma vote_body_not_400:
  assumes "s \<noteq> []" "py_int s = Some n" "Editor_of n = Some e"
  shows "fst (vote_body now outcome (Some s) d) \<noteq> Abort 400"
  using assms by (simp add: vote_body_def split: sum.splits)

text \<open>
  C10. A non-empty \<^verbatim>\<open>voe\<close> that \<^verbatim>\<open>int\<close> reads as the ordinal of a member is
  handled exactly as the plain decimal text of that ordinal, whatever its spelling
  (surrounding whitespace, a plus sign, underscores between digits): the two
  submissions have the same response and leave the same state. Such a value is never
  answered with 400; and when the limiter lets the attempt through and the commit
  succeeds, on a session with nothing left over, the answer is the redirect to
  \<^verbatim>\<open>/\<close> with the confirmation message, and the table gains one row for that
  editor.
\<close>

theorem vote_accepts_int_text:
  assumes "s \<noteq> []" and "py_int s = Some n" and "Editor_of n = Some e"
  shows "vote (sub\<lparr>form_voe := Some s\<rparr>) sv = vote (sub\<lparr>form_voe := Some (py_str n)\<rparr>) sv
     \<and> fst (vote (sub\<lparr>form_voe := Some s\<rparr>) sv) \<noteq> Abort 400
     \<and> (fst (limiter_hit (sent_at sub) (remote_addr sub) (limiter sv))
          \<and> storage sub = Commit_ok \<and> written (db sv) = [] \<and> pending (db sv) = [] \<longrightarrow>
        fst (vote (sub\<lparr>form_voe := Some s\<rparr>) sv) =
          Redirect ''/''
            [''Your vote for `'' @ Editor_name e @ ''` with ID `''
             @ py_str (next_id (rows (db sv))) @ ''` has been recorded.'']
        \<and> db (snd (vote (sub\<lparr>form_voe := Some s\<rparr>) sv)) =
            (db sv)\<lparr>rows := rows (db sv)
              @ [\<lparr>vote_id = next_id (rows (db sv)), vote_editor = e,
                  vote_voted = sent_at sub\<rparr>]\<rparr>)"
proof (cases "fst (limiter_hit (sent_at sub) (remote_addr sub) (limiter sv))")
  case False
  then have "\<And>v. vote (sub\<lparr>form_voe := v\<rparr>) sv = (Abort 429, sv)"
    by (intro vote_limited) simp
  with False show ?thesis by simp
next
  case True
  then have adm: "\<And>v. fst (limiter_hit (sent_at (sub\<lparr>form_voe := v\<rparr>))
      (remote_addr (sub\<lparr>form_voe := v\<rparr>)) (limiter sv))" by simp
  have same: "vote (sub\<lparr>form_voe := Some s\<rparr>) sv = vote (sub\<lparr>form_voe := Some (py_str n)\<rparr>) sv"
    using vote_admitted [OF adm, of "Some s"] vote_admitted [OF adm, of "Some (py_str n)"]
      vote_body_same [OF assms]
    by simp
  have not400: "fst (vote (sub\<lparr>form_voe := Some s\<rparr>) sv) \<noteq> Abort 400"
    using vote_admitted [OF adm, of "Some s"] vote_body_not_400 [OF assms] by simp
  have ok: "fst (vote (sub\<lparr>form_voe := Some s\<rparr>) sv) =
          Redirect ''/''
            [''Your vote for `'' @ Editor_name e @ ''` with ID `''
             @ py_str (next_id (rows (db sv))) @ ''` has been recorded.'']
        \<and> db (snd (vote (sub\<lparr>form_voe := Some s\<rparr>) sv)) =
            (db sv)\<lparr>rows := rows (db sv)
              @ [\<lparr>vote_id = next_id (rows (db sv)), vote_editor = e,
                  vote_voted = sent_at sub\<rparr>]\<rparr>"
    if "storage sub = Commit_ok" "written (db sv) = []" "pending (db sv) = []"
    using vote_admitted [OF adm, of "Some s"] vote_body_success [OF assms that(2,3)] that(1)
    by simp
  from same not400 ok show ?thesis by blast
qed

text \<open>
  The theorem at \<^verbatim>\<open>voe=" +1 "\<close> on the server as started: the vote is recorded
  for vim with id 1.
\<close>

theorem vote_accepts_int_text_witness:
  "py_int '' +1 '' = Some 1 \<and> Editor_of 1 = Some vim
   \<and> fst (vote \<lparr>remote_addr = ''203.0.113.7'', sent_at = 0, form_voe = Some '' +1 '',
                storage = Commit_ok\<rparr> started)
      = Redirect ''/'' [''Your vote for `vim` with ID `1` has been recorded.'']
   \<and> rows (db (snd (vote \<lparr>remote_addr = ''203.0.113.7'', sent_at = 0,
                form_voe = Some '' +1 '', storage = Commit_ok\<rparr> started)))
      = [\<lparr>vote_id = 1, vote_editor = vim, vote_voted = 0\<rparr>]"
proof -
  let ?sub = "\<lparr>remote_addr = ''203.0.113.7'', sent_at = 0, form_voe = None,
                storage = Commit_ok\<rparr>"
  have h1: "'' +1 '' \<noteq> []" by simp
  have h3: "Editor_of 1 = Some vim" by (simp add: Editor_of_def)
  from vote_accepts_int_text [OF h1 py_int_plus_1 h3, of ?sub started, THEN conjunct2]
    started_admits [of 0 "''203.0.113.7''"] py_int_plus_1 h3
  show ?thesis
    by (simp add: started_def next_id_def py_str_1)
qed

section \<open>Properties of the rate limit\<close>

lemma vote_redirect_admitted:
  assumes "vote sub sv = (Redirect loc msgs, sv')"
  shows "fst (limiter_hit (sent_at sub) (remote_addr sub) (limiter sv))"
proof (rule ccontr)
  assume "\<not> fst (limiter_hit (sent_at sub) (remote_addr sub) (limiter sv))"
  from vote_limited [OF this] assms show False by simp
qed

lemma limiter_hit_newest:
  assumes "fst (limiter_hit now key st)"
  shows "\<exists>ts. snd (limiter_hit now key st) key = now # ts"
  using assms by (auto simp: limiter_hit_def split: list.splits if_splits)

lemma limiter_hit_keeps:
  assumes "st key = t # ts" and "t0 \<le> t" and "t0 \<le> now"
  shows "\<exists>t' ts'. snd (limiter_hit now key' st) key = t' # ts' \<and> t0 \<le> t'"
  using assms by (auto simp: limiter_hit_def split: list.splits if_splits)

lemma limiter_vote:
  "limiter (snd (vote sub sv)) = snd (limiter_hit (sent_at sub) (remote_addr sub) (limiter sv))"
proof (cases "fst (limiter_hit (sent_at sub) (remote_addr sub) (limiter sv))")
  case True
  from vote_admitted [OF True] show ?thesis by simp
next
  case False
  then have "snd (limiter_hit (sent_at sub) (remote_addr sub) (limiter sv)) = limiter sv"
    by (auto simp: limiter_hit_def split: list.splits if_splits)
  with vote_limited [OF False] show ?thesis by simp
qed

lemma run_keeps:
  assumes "run sv subs = (resps, sv')"
    and "limiter sv key = t # ts" and "t0 \<le> t"
    and "\<forall>sub \<in> set subs. t0 \<le> sent_at sub"
  shows "\<exists>t' ts'. limiter sv' key = t' # ts' \<and> t0 \<le> t'"
  using assms
proof (induction subs arbitrary: sv sv' resps t ts)
  case Nil
  then show ?case by simp
next
  case (Cons sub subs)
  obtain r sv1 where v: "vote sub sv = (r, sv1)" by (cases "vote sub sv")
  obtain rs sv2 where r: "run sv1 subs = (rs, sv2)" by (cases "run sv1 subs")
  from Cons.prems(1) v r have sv': "sv' = sv2" by simp
  from Cons.prems(4) have now: "t0 \<le> sent_at sub" by simp
  from limiter_hit_keeps [of "limiter sv" key t ts t0 "sent_at sub" "remote_addr sub",
      OF Cons.prems(2,3) now] limiter_vote [of sub sv] v
  obtain t1 ts1 where l1: "limiter sv1 key = t1 # ts1" and t1: "t0 \<le> t1" by auto
  from Cons.prems(4) have rest: "\<forall>sub \<in> set subs. t0 \<le> sent_at sub" by simp
  from Cons.IH [OF r l1 t1 rest] sv' show ?case by simp
qed

text \<open>
  C5. Once a submission \<open>s1\<close> of a client has been accepted (answered with the
  redirect), and whatever submissions of any clients are handled after it, a
  submission \<open>s2\<close> from the same address less than 24 hours after \<open>s1\<close> is
  answered with 429 and changes nothing, whatever editor it selects. The submissions
  arrive in the order of their times. Hence no client has two accepted votes less than
  24 hours apart.
\<close>

theorem one_vote_per_day:
  assumes "vote s1 sv = (Redirect loc msgs, sv1)"
    and "run sv1 subs = (resps, sv2)"
    and "sorted (map sent_at (s1 # subs @ [s2]))"
    and "remote_addr s2 = remote_addr s1"
    and "sent_at s2 < sent_at s1 + one_day"
  shows "vote s2 sv2 = (Abort 429, sv2)"
proof -
  from vote_redirect_admitted [OF assms(1)]
  have adm: "fst (limiter_hit (sent_at s1) (remote_addr s1) (limiter sv))" .
  from limiter_hit_newest [OF adm] limiter_vote [of s1 sv] assms(1)
  obtain ts where l1: "limiter sv1 (remote_addr s1) = sent_at s1 # ts" by auto
  from assms(3) have later: "\<forall>sub \<in> set subs. sent_at s1 \<le> sent_at sub" by auto
  from run_keeps [OF assms(2) l1 order_refl later]
  obtain t' ts' where l2: "limiter sv2 (remote_addr s1) = t' # ts'" and t': "sent_at s1 \<le> t'"
    by blast
  from t' assms(5) have "sent_at s2 - one_day \<le> t'" by simp
  with l2 assms(4) have "\<not> fst (limiter_hit (sent_at s2) (remote_addr s2) (limiter sv2))"
    by (simp add: limiter_hit_def)
  then show ?thesis by (rule vote_limited)
qed

text \<open>
  The theorem on the server as started: a vote at time 0, a vote of another client at
  time 10, and a second attempt of the first client an hour after its vote.
\<close>

theorem one_vote_per_day_witness:
  "fst (vote \<lparr>remote_addr = ''203.0.113.7'', sent_at = 0, form_voe = Some ''1'',
              storage = Commit_ok\<rparr> started)
     = Redirect ''/'' [''Your vote for `vim` with ID `1` has been recorded.'']
   \<and> sent_at \<lparr>remote_addr = ''203.0.113.7'', sent_at = 3600, form_voe = Some ''2'',
               storage = Commit_ok\<rparr>
       < sent_at \<lparr>remote_addr = ''203.0.113.7'', sent_at = 0, form_voe = Some ''1'',
               storage = Commit_ok\<rparr> + one_day
   \<and> fst (vote \<lparr>remote_addr = ''203.0.113.7'', sent_at = 3600, form_voe = Some ''2'',
               storage = Commit_ok\<rparr>
        (snd (run (snd (vote \<lparr>remote_addr = ''203.0.113.7'', sent_at = 0,
                     form_voe = Some ''1'', storage = Commit_ok\<rparr> started))
               [\<lparr>remote_addr = ''198.51.100.2'', sent_at = 10, form_voe = Some ''2'',
                 storage = Commit_ok\<rparr>]))) = Abort 429"
proof -
  let ?s1 = "\<lparr>remote_addr = ''203.0.113.7'', sent_at = 0, form_voe = Some ''1'',
              storage = Commit_ok\<rparr>"
  let ?sb = "\<lparr>remote_addr = ''198.51.100.2'', sent_at = 10, form_voe = Some ''2'',
                 storage = Commit_ok\<rparr>"
  let ?s2 = "\<lparr>remote_addr = ''203.0.113.7'', sent_at = 3600, form_voe = Some ''2'',
               storage = Commit_ok\<rparr>"
  have h1: "vote ?s1 started =
      (Redirect ''/'' [''Your vote for `vim` with ID `1` has been recorded.''],
       snd (vote ?s1 started))"
    by (simp add: vote_first)
  have h2: "run (snd (vote ?s1 started)) [?sb] =
      (fst (run (snd (vote ?s1 started)) [?sb]), snd (run (snd (vote ?s1 started)) [?sb]))"
    by simp
  have h3: "sorted (map sent_at (?s1 # [?sb] @ [?s2]))" by simp
  have h4: "remote_addr ?s2 = remote_addr ?s1" by simp
  have h5: "sent_at ?s2 < sent_at ?s1 + one_day" by (simp add: one_day_def)
  have "vote ?s2 (snd (run (snd (vote ?s1 started)) [?sb])) =
      (Abort 429, snd (run (snd (vote ?s1 started)) [?sb]))"
    by (rule one_vote_per_day [OF h1 h2 h3 h4 h5])
  then have c: "fst (vote ?s2 (snd (run (snd (vote ?s1 started)) [?sb]))) = Abort 429"
    by (simp only: fst_conv)
  have a: "fst (vote ?s1 started) =
      Redirect ''/'' [''Your vote for `vim` with ID `1` has been recorded.'']"
    by (simp add: vote_first)
  from a h5 c show ?thesis by (intro conjI)
qed

end
